theory Spec2Isabelle
  imports Complex_Main "HOL-Library.AList"
begin

section \<open>Python values\<close>

text \<open>
  The values that travel through the pipeline: what \<open>create_order\<close> puts into an order and
  what \<open>json.loads\<close> can hand to the consumer. Python floats are read as reals (exact
  arithmetic, no overflow); a dict is an association list in insertion order, the order
  Python keeps.
\<close>

datatype pyval =
    PNone
  | PBool bool
  | PInt int
  | PFloat real
  | PStr string
  | PList "pyval list"
  | PDict "(string \<times> pyval) list"

type_synonym pydict = "(string \<times> pyval) list"

datatype py_error = ValueError string | AttributeError | KafkaException | OverflowError

text \<open>\<open>d.get(k)\<close>: the value stored under \<open>k\<close>, or \<open>None\<close>.\<close>

definition dict_get :: "pydict \<Rightarrow> string \<Rightarrow> pyval" where
  "dict_get d k = (case map_of d k of None \<Rightarrow> PNone | Some v \<Rightarrow> v)"

text \<open>
  \<open>isinstance(v, int)\<close>: in Python \<open>bool\<close> is a subclass of \<open>int\<close>, so the test holds for
  \<open>True\<close> and \<open>False\<close> as well as for integers.
\<close>

fun isinstance_int :: "pyval \<Rightarrow> bool" where
  "isinstance_int (PInt _) = True"
| "isinstance_int (PBool _) = True"
| "isinstance_int _ = False"

text \<open>The number an \<open>int\<close> instance stands for in arithmetic (\<open>True\<close> is 1, \<open>False\<close> is 0).\<close>

fun int_value :: "pyval \<Rightarrow> int" where
  "int_value (PInt i) = i"
| "int_value (PBool b) = (if b then 1 else 0)"
| "int_value _ = 0"

section \<open>The consumer: \<open>tracker.py\<close>\<close>

record tracker_args =
  commit_every :: int
  tracker_report_every_seconds :: int

record tracker_metrics =
  processed :: int
  errors :: int
  latency_total_ms :: real

text \<open>
  What one call of \<open>consumer.poll(1.0)\<close> gives back. A message's value either fails in
  \<open>msg.value().decode("utf-8")\<close> or \<open>json.loads\<close> (any exception), or parses to a value.
\<close>

datatype msg_value = Undecodable | Decoded pyval

datatype poll_result = NoMessage | BrokerError | Message msg_value

text \<open>
  \<open>tracker.py\<close> installs no signal handler, so the stop signal reaches \<open>main\<close> as a
  \<open>KeyboardInterrupt\<close> raised wherever the loop happens to be. The places are told apart as
  far as the counters and the commit log can tell: in \<open>poll\<close> or anywhere before the record
  is counted (line 63); after line 63 and before the latency is added (line 66); after line
  66 and before the periodic commit (line 76), for instance during the \<open>print\<close> of lines
  68-73; after the commit test and its commit (lines 75-76) and before the report.
\<close>

datatype interrupt_point = AtPoll | AfterCount | AfterLatency | AfterCommit

text \<open>
  One iteration's environment: the poll result, the wall clock \<open>time.time()\<close> while the
  record is handled (seconds), whether a periodic \<open>consumer.commit\<close> issued in this
  iteration returns (\<open>True\<close>) or raises, and where in this iteration the interrupt is
  raised, if it is.
\<close>

record poll_event =
  result :: poll_result
  seen_at :: real
  commit_returns :: bool
  interrupted :: "interrupt_point option"

datatype commit_kind = Periodic | Final

text \<open>
  The loop state: the metrics, \<open>last_report\<close>, and two logs of what the run did: every
  synchronous \<open>consumer.commit(asynchronous=False)\<close> call with the value of \<open>processed\<close>
  when it was made, and the number of metrics lines printed.
\<close>

record tracker_state =
  metrics :: tracker_metrics
  last_report :: real
  commits :: "(commit_kind \<times> int) list"
  reports :: nat

datatype outcome = Interrupted | Crashed py_error

definition count_error :: "tracker_state \<Rightarrow> tracker_state" where
  "count_error s = s\<lparr>metrics := (metrics s)\<lparr>errors := errors (metrics s) + 1\<rparr>\<rparr>"

definition count_record :: "tracker_state \<Rightarrow> tracker_state" where
  "count_record s = s\<lparr>metrics := (metrics s)\<lparr>processed := processed (metrics s) + 1\<rparr>\<rparr>"

text \<open>
  \<open>float - int\<close> converts the int to a float first and raises \<open>OverflowError\<close> when it
  rounds to a magnitude beyond the largest double.
\<close>

definition float_overflow :: "int \<Rightarrow> bool" where
  "float_overflow i = (2 ^ 1024 - 2 ^ 970 \<le> \<bar>i\<bar>)"

text \<open>Lines 64-66: add the record's latency when \<open>event_time_ms\<close> is an int.\<close>

definition add_latency :: "real \<Rightarrow> pydict \<Rightarrow> tracker_metrics \<Rightarrow> py_error + tracker_metrics" where
  "add_latency now order m =
     (let event_time_ms = dict_get order ''event_time_ms''
      in if isinstance_int event_time_ms
         then (if float_overflow (int_value event_time_ms) then Inl OverflowError
               else Inr (m\<lparr>latency_total_ms :=
                            latency_total_ms m
                            + (now * 1000 - real_of_int (int_value event_time_ms))\<rparr>))
         else Inr m)"

text \<open>Lines 78-91: the time-triggered metrics line.\<close>

definition tracker_report :: "tracker_args \<Rightarrow> real \<Rightarrow> tracker_state \<Rightarrow> tracker_state" where
  "tracker_report a now s =
     (if now - last_report s \<ge> real_of_int (tracker_report_every_seconds a)
      then s\<lparr>last_report := now, reports := Suc (reports s)\<rparr>
      else s)"

text \<open>
  Lines 63-91, for a payload that parsed to a dict. The result says how the loop goes on:
  \<open>None\<close> for the next iteration, otherwise the way the loop is left.
\<close>

definition record_iteration :: "tracker_args \<Rightarrow> poll_event \<Rightarrow> pydict \<Rightarrow> tracker_state
                                \<Rightarrow> outcome option \<times> tracker_state" where
  "record_iteration a e order s =
     (let s1 = count_record s
      in if interrupted e = Some AfterCount then (Some Interrupted, s1)
         else (case add_latency (seen_at e) order (metrics s1) of
                 Inl err \<Rightarrow> (Some (Crashed err), s1)
               | Inr m \<Rightarrow>
                   (let s2 = s1\<lparr>metrics := m\<rparr>
                    in if interrupted e = Some AfterLatency then (Some Interrupted, s2)
                       else if commit_every a > 0 \<and> processed (metrics s2) mod commit_every a = 0
                       then (let s3 = s2\<lparr>commits := commits s2
                                               @ [(Periodic, processed (metrics s2))]\<rparr>
                             in if \<not> commit_returns e then (Some (Crashed KafkaException), s3)
                                else if interrupted e = Some AfterCommit then (Some Interrupted, s3)
                                else (None, tracker_report a (seen_at e) s3))
                       else if interrupted e = Some AfterCommit then (Some Interrupted, s2)
                       else (None, tracker_report a (seen_at e) s2))))"

text \<open>
  Lines 47-91: one pass through the loop body. An iteration that ends (\<open>continue\<close>) before
  the place of its interrupt is interrupted in the \<open>poll\<close> that follows. \<open>order.get\<close> on a
  parsed value that is not a dict raises \<open>AttributeError\<close>, outside the inner \<open>try\<close>.
\<close>

definition tracker_iteration :: "tracker_args \<Rightarrow> poll_event \<Rightarrow> tracker_state
                                 \<Rightarrow> outcome option \<times> tracker_state" where
  "tracker_iteration a e s =
     (if interrupted e = Some AtPoll then (Some Interrupted, s)
      else (case result e of
              NoMessage \<Rightarrow> (map_option (\<lambda>_. Interrupted) (interrupted e), s)
            | BrokerError \<Rightarrow> (map_option (\<lambda>_. Interrupted) (interrupted e), count_error s)
            | Message Undecodable \<Rightarrow>
                (map_option (\<lambda>_. Interrupted) (interrupted e), count_error s)
            | Message (Decoded (PDict order)) \<Rightarrow> record_iteration a e order s
            | Message (Decoded _) \<Rightarrow>
                (if interrupted e = Some AfterCount then (Some Interrupted, count_record s)
                 else (Some (Crashed AttributeError), count_record s))))"

text \<open>
  The \<open>while True\<close> loop over the poll results the broker delivers. The loop has no exit of
  its own: it ends when \<open>KeyboardInterrupt\<close> is raised, in an iteration or in the \<open>poll\<close>
  after the listed results, or when a statement outside the inner \<open>try\<close> raises.
\<close>

fun tracker_loop :: "tracker_args \<Rightarrow> poll_event list \<Rightarrow> tracker_state \<Rightarrow> outcome \<times> tracker_state" where
  "tracker_loop a [] s = (Interrupted, s)"
| "tracker_loop a (e # es) s =
     (case tracker_iteration a e s of
        (None, s') \<Rightarrow> tracker_loop a es s'
      | (Some out, s') \<Rightarrow> (out, s'))"

text \<open>
  \<open>main\<close>: fresh metrics, the loop, and the \<open>finally\<close> block, whose commit is issued on
  every way out of the loop and whose own failure is swallowed.
\<close>

definition tracker_init :: "real \<Rightarrow> tracker_state" where
  "tracker_init started =
     \<lparr>metrics = \<lparr>processed = 0, errors = 0, latency_total_ms = 0\<rparr>,
      last_report = started, commits = [], reports = 0\<rparr>"

definition tracker_main :: "tracker_args \<Rightarrow> real \<Rightarrow> poll_event list \<Rightarrow> outcome \<times> tracker_state" where
  "tracker_main a started es =
     (case tracker_loop a es (tracker_init started) of
        (out, s) \<Rightarrow> (out, s\<lparr>commits := commits s @ [(Final, processed (metrics s))]\<rparr>))"

text \<open>
  Observers of the commit log: all synchronous commit calls, the periodic ones, and the
  periodic commits that fall due while \<open>processed\<close> goes from \<open>p\<close> to \<open>p'\<close>.
\<close>

definition sync_commit_calls :: "tracker_state \<Rightarrow> nat" where
  "sync_commit_calls s = length (commits s)"

definition periodic_commit_calls :: "tracker_state \<Rightarrow> nat" where
  "periodic_commit_calls s = length (filter (\<lambda>c. fst c = Periodic) (commits s))"

definition periodic_marks :: "int \<Rightarrow> int \<Rightarrow> int \<Rightarrow> (commit_kind \<times> int) list" where
  "periodic_marks c p p' = map (\<lambda>k. (Periodic, k * c)) [p div c + 1 .. p' div c]"

text \<open>
  A valid record: the poll gives a message whose payload parses to a dict with a timestamp
  that line 66 can subtract, a periodic commit issued for it returns, and the iteration
  is not interrupted. An iteration is left between records when its interrupt, if any,
  comes before the record is counted or after its commit test and commit.
\<close>

definition valid_record :: "poll_event \<Rightarrow> bool" where
  "valid_record e =
     (interrupted e = None \<and>
      (case result e of
         Message (Decoded (PDict order)) \<Rightarrow>
           commit_returns e \<and>
           \<not> (isinstance_int (dict_get order ''event_time_ms'') \<and>
              float_overflow (int_value (dict_get order ''event_time_ms'')))
       | _ \<Rightarrow> False))"

definition between_records :: "poll_event \<Rightarrow> bool" where
  "between_records e =
     (interrupted e = None \<or> interrupted e = Some AtPoll \<or> interrupted e = Some AfterCommit)"

section \<open>The event factory: \<open>create_order\<close> and \<open>create_invalid_order\<close>\<close>

record product =
  item :: string
  category :: string
  base_price :: real

definition PRODUCT_CATALOG :: "product list" where
  "PRODUCT_CATALOG =
     [\<lparr>item = ''yogurt'', category = ''dairy'', base_price = 320 / 100\<rparr>,
      \<lparr>item = ''potatoes'', category = ''vegetables'', base_price = 210 / 100\<rparr>,
      \<lparr>item = ''apples'', category = ''fruit'', base_price = 280 / 100\<rparr>,
      \<lparr>item = ''bananas'', category = ''fruit'', base_price = 310 / 100\<rparr>,
      \<lparr>item = ''carrots'', category = ''vegetables'', base_price = 240 / 100\<rparr>,
      \<lparr>item = ''cheese'', category = ''dairy'', base_price = 850 / 100\<rparr>,
      \<lparr>item = ''bread'', category = ''bakery'', base_price = 420 / 100\<rparr>,
      \<lparr>item = ''rice'', category = ''grains'', base_price = 590 / 100\<rparr>,
      \<lparr>item = ''pasta'', category = ''grains'', base_price = 620 / 100\<rparr>,
      \<lparr>item = ''eggs'', category = ''dairy'', base_price = 730 / 100\<rparr>]"

definition WEEKDAYS :: "string list" where
  "WEEKDAYS = [''Monday'', ''Tuesday'', ''Wednesday'', ''Thursday'', ''Friday'', ''Saturday'', ''Sunday'']"

definition PAYMENT_METHODS :: "string list" where
  "PAYMENT_METHODS = [''card'', ''blik'', ''cash'', ''mobile_wallet'']"

definition SALES_CHANNELS :: "string list" where
  "SALES_CHANNELS = [''store'', ''online'', ''pickup'']"

definition INVALID_MODES :: "string list" where
  "INVALID_MODES =
     [''missing_unit_price'', ''missing_quantity'', ''missing_both'',
      ''non_positive_unit_price'', ''non_positive_quantity'']"

text \<open>
  The library calls of \<open>create_order\<close>, with what the random source and the clock give as
  arguments. \<open>random.choice(xs)\<close> indexes \<open>xs\<close> with a pick below its length;
  \<open>random.uniform(a, b)\<close> is \<open>a + (b - a) * random()\<close>; \<open>round(x, 2)\<close> rounds to hundredths,
  ties to even; \<open>int(x)\<close> truncates towards zero.
\<close>

definition choice :: "'a list \<Rightarrow> nat \<Rightarrow> 'a" where
  "choice xs pick = xs ! (pick mod length xs)"

definition uniform :: "real \<Rightarrow> real \<Rightarrow> real \<Rightarrow> real" where
  "uniform a b u = a + (b - a) * u"

definition round_half_even :: "real \<Rightarrow> int" where
  "round_half_even x =
     (let f = \<lfloor>x\<rfloor>; d = x - real_of_int f
      in if d < 1 / 2 then f else if 1 / 2 < d then f + 1 else if even f then f else f + 1)"

definition round2 :: "real \<Rightarrow> real" where
  "round2 x = real_of_int (round_half_even (x * 100)) / 100"

definition py_int :: "real \<Rightarrow> int" where
  "py_int x = (if 0 \<le> x then \<lfloor>x\<rfloor> else \<lceil>x\<rceil>)"

text \<open>
  \<open>purchase_dt\<close>, the datetime \<open>now_dt - timedelta(days, hours, minutes, seconds)\<close> with its
  four random offsets, as the \<open>datetime\<close> library renders it. \<open>weekday()\<close> is a day number
  from 0 (Monday) to 6.
\<close>

record purchase_dt =
  isoformat_seconds :: string
  date_isoformat :: string
  strftime_hms :: string
  day_number :: nat
  hour :: int

definition weekday :: "purchase_dt \<Rightarrow> nat" where
  "weekday dt = day_number dt mod 7"

text \<open>Everything one call of \<open>create_order\<close> draws from outside.\<close>

record order_draws =
  now_timestamp :: real
  purchase :: purchase_dt
  product_pick :: nat
  quantity_pick :: int
  price_pick :: real
  discount_pick :: nat
  payment_pick :: nat
  channel_pick :: nat
  uuid4 :: string
  faker_name :: string
  faker_city :: string

definition create_order :: "order_draws \<Rightarrow> pydict" where
  "create_order d =
     (let purchase_dt = purchase d;
          now_ms = py_int (now_timestamp d * 1000);
          weekday_num = weekday purchase_dt;
          product = choice PRODUCT_CATALOG (product_pick d);
          quantity = quantity_pick d;
          unit_price = round2 (uniform (base_price product * (85 / 100))
                                       (base_price product * (120 / 100)) (price_pick d));
          discount_pct = choice [0, 0, 0, 5, 10, 15 :: int] (discount_pick d);
          total_amount = round2 (real_of_int quantity * unit_price
                                 * (1 - real_of_int discount_pct / 100))
      in [(''order_id'', PStr (uuid4 d)),
          (''user'', PStr (faker_name d)),
          (''item'', PStr (item product)),
          (''category'', PStr (category product)),
          (''quantity'', PInt quantity),
          (''unit_price'', PFloat unit_price),
          (''discount_pct'', PInt discount_pct),
          (''total_amount'', PFloat total_amount),
          (''payment_method'', PStr (choice PAYMENT_METHODS (payment_pick d))),
          (''sales_channel'', PStr (choice SALES_CHANNELS (channel_pick d))),
          (''store_city'', PStr (faker_city d)),
          (''purchase_datetime'', PStr (isoformat_seconds purchase_dt)),
          (''purchase_date'', PStr (date_isoformat purchase_dt)),
          (''purchase_time'', PStr (strftime_hms purchase_dt)),
          (''weekday_name'', PStr (WEEKDAYS ! weekday_num)),
          (''weekday_num'', PInt (int weekday_num)),
          (''hour_of_day'', PInt (hour purchase_dt)),
          (''is_weekend'', PBool (5 \<le> weekday_num)),
          (''event_time_ms'', PInt now_ms)])"

text \<open>\<open>d.pop(k, None)\<close> and \<open>d[k] = v\<close> on an insertion-ordered dict.\<close>

definition dict_pop :: "pydict \<Rightarrow> string \<Rightarrow> pydict" where
  "dict_pop d k = AList.delete k d"

definition dict_set :: "pydict \<Rightarrow> string \<Rightarrow> pyval \<Rightarrow> pydict" where
  "dict_set d k v = AList.update k v d"

text \<open>
  \<open>create_invalid_order(mode)\<close>: the draws are those of \<open>create_order\<close> and the pick of
  \<open>random.choice(INVALID_MODES)\<close>, used only when the mode is \<open>random\<close>.
\<close>

definition create_invalid_order :: "string \<Rightarrow> order_draws \<times> nat \<Rightarrow> pydict" where
  "create_invalid_order mode dp =
     (let order = create_order (fst dp);
          selected_mode = (if mode = ''random'' then choice INVALID_MODES (snd dp) else mode);
          order1 =
            (if selected_mode = ''missing_unit_price'' then dict_pop order ''unit_price''
             else if selected_mode = ''missing_quantity'' then dict_pop order ''quantity''
             else if selected_mode = ''missing_both''
               then dict_pop (dict_pop order ''unit_price'') ''quantity''
             else if selected_mode = ''non_positive_unit_price''
               then dict_set order ''unit_price'' (PFloat 0)
             else if selected_mode = ''non_positive_quantity''
               then dict_set order ''quantity'' (PInt 0)
             else order)
      in dict_set order1 ''invalid_mode'' (PStr selected_mode))"


section \<open>The producers: \<open>producer.py\<close> and \<open>producer_invalid.py\<close>\<close>

record producer_args =
  events_per_second :: real
  max_events :: int
  duration_seconds :: int
  report_every_seconds :: int

record producer_metrics =
  sent_ok :: int
  sent_error :: int
  ack_latency_total_ms :: real

text \<open>
  \<open>delivery_report(err, msg, started_at)\<close>; the last argument is what \<open>time.time()\<close> returns
  inside the callback.
\<close>

definition delivery_report :: "string option \<Rightarrow> real \<Rightarrow> real \<Rightarrow> producer_metrics \<Rightarrow> producer_metrics" where
  "delivery_report err started_at now m =
     (case err of
        Some _ \<Rightarrow> m\<lparr>sent_error := sent_error m + 1\<rparr>
      | None \<Rightarrow> m\<lparr>sent_ok := sent_ok m + 1,
                   ack_latency_total_ms := ack_latency_total_ms m + (now - started_at) * 1000\<rparr>)"

text \<open>
  The calls the loop makes on the broker client, in order: \<open>Producer(...)\<close>, each
  \<open>produce\<close> with the order it encodes and whether the client took it (\<open>False\<close>:
  \<open>BufferError\<close>), each \<open>poll\<close> and the final \<open>flush\<close> with their timeouts. The message key
  is the order's \<open>order_id\<close>, which both factories always set.
\<close>

datatype client_call = Create | Produce pydict bool | Poll real | Flush real

text \<open>
  The state of \<open>main\<close>: the wall clock, the locals of the loop, the callbacks the client
  still owes (each holds the \<open>started\<close> it captured), and logs of the client calls, of the
  arguments of \<open>time.sleep\<close> and of the metrics lines printed.
\<close>

record producer_state =
  clock :: real
  start :: real
  p_metrics :: producer_metrics
  next_send_time :: real
  produced :: int
  p_last_report :: real
  in_flight :: "real list"
  calls :: "client_call list"
  sleeps :: "real list"
  p_reports :: nat

text \<open>
  One iteration's environment: the draws of the event factory, the time that passes from
  the top of the loop to \<open>produce_start\<close>, whether \<open>produce\<close> takes the record, the time
  \<open>produce\<close> and the \<open>poll\<close> after it take, the callbacks that \<open>poll\<close> serves (which pending
  send, by position, and its \<open>err\<close>), and the time \<open>time.sleep\<close> takes beyond its argument.
  The times are differences of readings of \<open>time.time()\<close>, the wall clock: one is negative
  when the clock is set back in between.
\<close>

record 'd tick =
  draws :: 'd
  create_time :: real
  accepted :: bool
  send_time :: real
  acks :: "(nat \<times> string option) list"
  oversleep :: real

record 'd environment =
  started :: real
  stop_at :: "real option"
  ticks :: "'d tick list"
  flush_time :: real
  flush_acks :: "(nat \<times> string option) list"

text \<open>
  The client calls the delivery callbacks from inside \<open>poll\<close> and \<open>flush\<close>, never from
  \<open>produce\<close>: for each send it reports on, the callback that send registered, once.
\<close>

fun deliver :: "(nat \<times> string option) list \<Rightarrow> real \<Rightarrow> real list \<times> producer_metrics
                \<Rightarrow> real list \<times> producer_metrics" where
  "deliver [] now (q, m) = (q, m)"
| "deliver ((i, err) # rest) now (q, m) =
     (if i < length q
      then deliver rest now (take i q @ drop (Suc i) q, delivery_report err (q ! i) now m)
      else deliver rest now (q, m))"

definition serve_callbacks :: "(nat \<times> string option) list \<Rightarrow> producer_state \<Rightarrow> producer_state" where
  "serve_callbacks as s =
     (case deliver as (clock s) (in_flight s, p_metrics s) of
        (q, m) \<Rightarrow> s\<lparr>in_flight := q, p_metrics := m\<rparr>)"

text \<open>Lines 168-173: the pacer.\<close>

definition pace :: "producer_args \<Rightarrow> real \<Rightarrow> producer_state \<Rightarrow> producer_state" where
  "pace a over s =
     (let next = next_send_time s + 1 / events_per_second a;
          sleep_for = next - clock s
      in if 0 < sleep_for
         then s\<lparr>next_send_time := next, sleeps := sleeps s @ [sleep_for],
                clock := clock s + sleep_for + over\<rparr>
         else s\<lparr>next_send_time := clock s\<rparr>)"

text \<open>Lines 175-186: the time-triggered metrics line.\<close>

definition producer_report :: "producer_args \<Rightarrow> producer_state \<Rightarrow> producer_state" where
  "producer_report a s =
     (if real_of_int (report_every_seconds a) \<le> clock s - p_last_report s
      then s\<lparr>p_last_report := clock s, p_reports := Suc (p_reports s)\<rparr>
      else s)"

text \<open>Lines 150-186: one pass through the loop body, for the event factory \<open>factory\<close>.\<close>

definition send_iteration :: "('d \<Rightarrow> pydict) \<Rightarrow> producer_args \<Rightarrow> 'd tick \<Rightarrow> producer_state \<Rightarrow> producer_state" where
  "send_iteration factory a t s =
     (let order = factory (draws t);
          produce_start = clock s + create_time t;
          s1 = s\<lparr>clock := produce_start + send_time t\<rparr>
      in if accepted t
         then (let s2 = s1\<lparr>calls := calls s1 @ [Produce order True, Poll 0],
                           in_flight := in_flight s1 @ [produce_start],
                           produced := produced s1 + 1\<rparr>
               in producer_report a (pace a (oversleep t) (serve_callbacks (acks t) s2)))
         else serve_callbacks (acks t)
                (s1\<lparr>calls := calls s1 @ [Produce order False, Poll (1 / 10)]\<rparr>))"

text \<open>
  Lines 143-148: the loop test. \<open>should_stop\<close> is set by the signal handler, so it holds
  from the moment the signal arrives.
\<close>

definition should_stop :: "real option \<Rightarrow> real \<Rightarrow> bool" where
  "should_stop stop now = (case stop of None \<Rightarrow> False | Some t \<Rightarrow> t \<le> now)"

definition loop_exits :: "producer_args \<Rightarrow> real option \<Rightarrow> producer_state \<Rightarrow> bool" where
  "loop_exits a stop s =
     (should_stop stop (clock s)
      \<or> (0 < duration_seconds a \<and> real_of_int (duration_seconds a) \<le> clock s - start s)
      \<or> (0 < max_events a \<and> max_events a \<le> produced s))"

text \<open>
  The \<open>while\<close> loop over the iterations the environment describes. With neither limit set
  and no signal the loop does not end: \<open>None\<close> says that it is still running when the
  described iterations are used up.
\<close>

fun producer_loop :: "('d \<Rightarrow> pydict) \<Rightarrow> producer_args \<Rightarrow> real option \<Rightarrow> 'd tick list
                      \<Rightarrow> producer_state \<Rightarrow> producer_state option" where
  "producer_loop factory a stop [] s = (if loop_exits a stop s then Some s else None)"
| "producer_loop factory a stop (t # ts) s =
     (if loop_exits a stop s then Some s
      else producer_loop factory a stop ts (send_iteration factory a t s))"

definition producer_init :: "real \<Rightarrow> producer_state" where
  "producer_init now =
     \<lparr>clock = now, start = now,
      p_metrics = \<lparr>sent_ok = 0, sent_error = 0, ack_latency_total_ms = 0\<rparr>,
      next_send_time = now, produced = 0, p_last_report = now,
      in_flight = [], calls = [Create], sleeps = [], p_reports = 0\<rparr>"

text \<open>Lines 188-197: \<open>producer.flush(10)\<close> and the figures of the summary line.\<close>

definition flush :: "real \<Rightarrow> (nat \<times> string option) list \<Rightarrow> producer_state \<Rightarrow> producer_state" where
  "flush took as s =
     serve_callbacks as (s\<lparr>clock := clock s + took, calls := calls s @ [Flush 10]\<rparr>)"

definition elapsed :: "producer_state \<Rightarrow> real" where
  "elapsed s = max (clock s - start s) (1 / 1000)"

definition throughput :: "producer_state \<Rightarrow> real" where
  "throughput s = real_of_int (sent_ok (p_metrics s)) / elapsed s"

definition avg_ack_ms :: "producer_state \<Rightarrow> real" where
  "avg_ack_ms s =
     (if sent_ok (p_metrics s) \<noteq> 0
      then ack_latency_total_ms (p_metrics s) / real_of_int (sent_ok (p_metrics s))
      else 0)"

text \<open>
  \<open>main\<close>. An uncaught exception ends the process with a non-zero exit status; \<open>Raised\<close>
  carries the exception and the client calls made before it.
\<close>

datatype run = Raised py_error "client_call list" | Unfinished | Finished producer_state

definition producer_run :: "('d \<Rightarrow> pydict) \<Rightarrow> producer_args \<Rightarrow> 'd environment \<Rightarrow> run" where
  "producer_run factory a env =
     (if events_per_second a \<le> 0
      then Raised (ValueError ''--events-per-second must be greater than 0'') []
      else (case producer_loop factory a (stop_at env) (ticks env) (producer_init (started env)) of
              None \<Rightarrow> Unfinished
            | Some s \<Rightarrow> Finished (flush (flush_time env) (flush_acks env) s)))"

definition producer_main :: "producer_args \<Rightarrow> order_draws environment \<Rightarrow> run" where
  "producer_main = producer_run create_order"

definition producer_invalid_main :: "string \<Rightarrow> producer_args \<Rightarrow> (order_draws \<times> nat) environment \<Rightarrow> run" where
  "producer_invalid_main invalid_mode = producer_run (create_invalid_order invalid_mode)"




text \<open>Observers of a run: its final state, its metrics, the elapsed time of its summary line, its
  count of accepted sends, its callbacks still pending, its submissions.\<close>

fun finished :: "run \<Rightarrow> producer_state option" where
  "finished (Finished s) = Some s"
| "finished _ = None"


definition run_metrics :: "run \<Rightarrow> producer_metrics option" where
  "run_metrics r = map_option p_metrics (finished r)"





definition steady_clock :: "'d tick \<Rightarrow> bool" where
  "steady_clock t = (0 \<le> create_time t \<and> 0 \<le> send_time t \<and> 0 \<le> oversleep t)"





definition started_in_past :: "producer_state \<Rightarrow> bool" where
  "started_in_past s = list_all (\<lambda>st. st \<le> clock s) (in_flight s)"

section \<open>Sample runs\<close>

definition sample_record :: "real \<Rightarrow> poll_event" where
  "sample_record t =
     \<lparr>result = Message (Decoded (PDict [(''order_id'', PStr ''a1''), (''event_time_ms'', PInt 1000)])),
      seen_at = t, commit_returns = True, interrupted = None\<rparr>"

definition seven_records :: "poll_event list" where
  "seven_records = map sample_record [2, 3, 4, 5, 6, 7, 8]"


definition commit_every_args :: "int \<Rightarrow> tracker_args" where
  "commit_every_args n = \<lparr>commit_every = n, tracker_report_every_seconds = 5\<rparr>"

definition bool_timestamp_record :: poll_event where
  "bool_timestamp_record =
     \<lparr>result = Message (Decoded (PDict [(''order_id'', PStr ''a1''), (''event_time_ms'', PBool True)])),
      seen_at = 2, commit_returns = True, interrupted = None\<rparr>"


definition rate_args :: "real \<Rightarrow> int \<Rightarrow> producer_args" where
  "rate_args r n =
     \<lparr>events_per_second = r, max_events = n, duration_seconds = 0, report_every_seconds = 5\<rparr>"

definition sample_draws :: "string \<Rightarrow> order_draws" where
  "sample_draws u =
     \<lparr>now_timestamp = 1700000000,
      purchase = \<lparr>isoformat_seconds = ''2023-11-01T10:15:30'', date_isoformat = ''2023-11-01'',
                  strftime_hms = ''10:15:30'', day_number = 2, hour = 10\<rparr>,
      product_pick = 6, quantity_pick = 3, price_pick = 1 / 2, discount_pick = 4,
      payment_pick = 1, channel_pick = 0, uuid4 = u,
      faker_name = ''Jan Kowalski'', faker_city = ''Gdansk''\<rparr>"

text \<open>An iteration that takes no time but its sleep, and whose send is taken.\<close>

definition ideal_tick :: "'d \<Rightarrow> 'd tick" where
  "ideal_tick d =
     \<lparr>draws = d, create_time = 0, accepted = True, send_time = 0, acks = [], oversleep = 0\<rparr>"

text \<open>An iteration whose event takes 10 ms to build and whose sleep runs 1 ms over.\<close>

definition busy_tick :: "'d \<Rightarrow> real \<Rightarrow> bool \<Rightarrow> 'd tick" where
  "busy_tick d took ok =
     \<lparr>draws = d, create_time = 1 / 100, accepted = ok, send_time = took, acks = [],
      oversleep = 1 / 1000\<rparr>"

definition stopped_at_once :: "order_draws environment" where
  "stopped_at_once =
     \<lparr>started = 100, stop_at = Some 100, ticks = [], flush_time = 0, flush_acks = []\<rparr>"

definition two_sends :: "order_draws environment" where
  "two_sends =
     \<lparr>started = 100, stop_at = None,
      ticks =
        [\<lparr>draws = sample_draws ''e1'', create_time = 1 / 100, accepted = True,
          send_time = 1 / 100, acks = [], oversleep = 0\<rparr>,
         \<lparr>draws = sample_draws ''e2'', create_time = 1 / 100, accepted = True,
          send_time = 1 / 100, acks = [(0, None)], oversleep = 0\<rparr>],
      flush_time = 1 / 10, flush_acks = [(0, Some ''timed out'')]\<rparr>"

definition two_sends_final :: producer_state where
  "two_sends_final =
     \<lparr>clock = 1005 / 10, start = 100,
      p_metrics = \<lparr>sent_ok = 1, sent_error = 1, ack_latency_total_ms = 210\<rparr>,
      next_send_time = 1004 / 10, produced = 2, p_last_report = 100, in_flight = [],
      calls = [Create, Produce (create_order (sample_draws ''e1'')) True, Poll 0,
               Produce (create_order (sample_draws ''e2'')) True, Poll 0, Flush 10],
      sleeps = [18 / 100, 18 / 100], p_reports = 0\<rparr>"

text \<open>
  One send at 5 events per second; the wall clock is set back by one second between
  \<open>produce_start\<close> and the \<open>poll(0)\<close> that serves the send's callback.
\<close>

definition clock_set_back :: "order_draws environment" where
  "clock_set_back =
     \<lparr>started = 100, stop_at = None,
      ticks = [\<lparr>draws = sample_draws ''e1'', create_time = 0, accepted = True,
                send_time = - 1, acks = [(0, None)], oversleep = 0\<rparr>],
      flush_time = 0, flush_acks = []\<rparr>"









section \<open>Properties of the consumer\<close>

lemma tracker_report_keeps [simp]:
  "metrics (tracker_report a now s) = metrics s"
  "commits (tracker_report a now s) = commits s"
  by (simp_all add: tracker_report_def)

lemma count_error_keeps [simp]:
  "processed (metrics (count_error s)) = processed (metrics s)"
  "latency_total_ms (metrics (count_error s)) = latency_total_ms (metrics s)"
  "commits (count_error s) = commits s"
  by (simp_all add: count_error_def)

lemma count_record_keeps [simp]:
  "processed (metrics (count_record s)) = processed (metrics s) + 1"
  "latency_total_ms (metrics (count_record s)) = latency_total_ms (metrics s)"
  "errors (metrics (count_record s)) = errors (metrics s)"
  "commits (count_record s) = commits s"
  by (simp_all add: count_record_def)

lemma add_latency_keeps:
  "add_latency now order m = Inr m' \<Longrightarrow> processed m' = processed m \<and> errors m' = errors m"
  by (auto simp: add_latency_def Let_def split: if_splits)

lemma div_step_hit:
  fixes p c :: int
  assumes "0 < c" "(p + 1) mod c = 0"
  shows "(p + 1) div c = p div c + 1"
proof -
  define q where "q = (p + 1) div c"
  have "p + 1 = c * q + (p + 1) mod c"
    unfolding q_def by (rule mult_div_mod_eq [symmetric])
  then have "p + 1 = c * q"
    using assms(2) by simp
  then have "p = c * (q - 1) + (c - 1)"
    by (simp add: algebra_simps)
  then have "p div c = q - 1"
    using assms(1) by (intro int_div_pos_eq [where r = "c - 1"]) simp_all
  then show ?thesis
    by (simp add: q_def)
qed

lemma div_step_miss:
  fixes p c :: int
  assumes "0 < c" "(p + 1) mod c \<noteq> 0"
  shows "(p + 1) div c = p div c"
proof -
  define q where "q = (p + 1) div c"
  define r where "r = (p + 1) mod c"
  have "0 \<le> r" "r < c"
    using assms(1) by (simp_all add: r_def)
  then have r: "0 < r" "r < c"
    using assms(2) by (simp_all add: r_def less_le)
  have "p + 1 = c * q + r"
    unfolding q_def r_def by (rule mult_div_mod_eq [symmetric])
  then have "p = c * q + (r - 1)"
    by simp
  then have "p div c = q"
    using r by (intro int_div_pos_eq [where r = "r - 1"]) simp_all
  then show ?thesis
    by (simp add: q_def)
qed


lemma upto_join:
  fixes a b d :: int
  assumes "a \<le> b" "b \<le> d"
  shows "[a + 1 .. b] @ [b + 1 .. d] = [a + 1 .. d]"
proof (cases "a = b")
  case True
  then show ?thesis by simp
next
  case False
  with assms(1) have "a + 1 \<le> b" by simp
  from upto_split2 [OF this assms(2)] show ?thesis by simp
qed

lemma periodic_marks_same [simp]: "periodic_marks c p p = []"
  by (simp add: periodic_marks_def)

lemma periodic_marks_hit:
  "0 < c \<Longrightarrow> (p + 1) mod c = 0 \<Longrightarrow> periodic_marks c p (p + 1) = [(Periodic, p + 1)]"
proof -
  assume c: "0 < c" and h: "(p + 1) mod c = 0"
  have "p + 1 = (p + 1) div c * c"
    using h by (simp add: mod_eq_0_iff_dvd)
  then have "(p div c + 1) * c = p + 1"
    using div_step_hit [OF c h] by simp
  then show ?thesis
    using div_step_hit [OF c h] by (simp add: periodic_marks_def)
qed

lemma periodic_marks_miss:
  "0 < c \<Longrightarrow> (p + 1) mod c \<noteq> 0 \<Longrightarrow> periodic_marks c p (p + 1) = []"
  using div_step_miss [of c p] by (simp add: periodic_marks_def)

lemma periodic_marks_join:
  assumes "0 < c" "p \<le> p1" "p1 \<le> p'"
  shows "periodic_marks c p p1 @ periodic_marks c p1 p' = periodic_marks c p p'"
proof -
  have "p div c \<le> p1 div c" "p1 div c \<le> p' div c"
    using assms by (simp_all add: zdiv_mono1)
  from upto_join [OF this] show ?thesis
    by (simp add: periodic_marks_def flip: map_append)
qed


lemma record_iteration_processed:
  "processed (metrics (snd (record_iteration a e order s))) = processed (metrics s) + 1"
  by (auto simp: record_iteration_def Let_def dest: add_latency_keeps split: sum.splits)

lemma record_iteration_no_periodic:
  "commit_every a \<le> 0 \<Longrightarrow> commits (snd (record_iteration a e order s)) = commits s"
  by (auto simp: record_iteration_def Let_def split: sum.splits)

lemma record_iteration_continues:
  assumes "0 < commit_every a" and "fst (record_iteration a e order s) = None"
  shows "commits (snd (record_iteration a e order s))
           = commits s @ periodic_marks (commit_every a) (processed (metrics s))
                           (processed (metrics s) + 1)"
  using assms
  by (auto simp: record_iteration_def Let_def periodic_marks_hit periodic_marks_miss
      dest: add_latency_keeps split: sum.splits if_splits)

lemma record_iteration_between:
  assumes "0 < commit_every a" and "fst (record_iteration a e order s) = Some Interrupted"
    and "between_records e"
  shows "commits (snd (record_iteration a e order s))
           = commits s @ periodic_marks (commit_every a) (processed (metrics s))
                           (processed (metrics s) + 1)"
  using assms
  by (auto simp: record_iteration_def Let_def between_records_def periodic_marks_hit
      periodic_marks_miss dest: add_latency_keeps split: sum.splits if_splits)



lemma tracker_iteration_cases:
  obtains (at_poll) "interrupted e = Some AtPoll" "tracker_iteration a e s = (Some Interrupted, s)"
  | (idle) "interrupted e \<noteq> Some AtPoll" "result e = NoMessage"
      "tracker_iteration a e s = (map_option (\<lambda>_. Interrupted) (interrupted e), s)"
  | (failed) "interrupted e \<noteq> Some AtPoll"
      "tracker_iteration a e s = (map_option (\<lambda>_. Interrupted) (interrupted e), count_error s)"
  | (dict) order where "interrupted e \<noteq> Some AtPoll"
      "result e = Message (Decoded (PDict order))"
      "tracker_iteration a e s = record_iteration a e order s"
  | (nondict) "interrupted e \<noteq> Some AtPoll"
      "tracker_iteration a e s = (Some Interrupted, count_record s) \<and> interrupted e = Some AfterCount
       \<or> tracker_iteration a e s = (Some (Crashed AttributeError), count_record s)"
proof (cases "interrupted e = Some AtPoll")
  case True
  then show ?thesis by (intro at_poll) (simp_all add: tracker_iteration_def)
next
  case False
  show ?thesis
  proof (cases "result e")
    case NoMessage
    with False show ?thesis by (intro idle) (simp_all add: tracker_iteration_def)
  next
    case BrokerError
    with False show ?thesis by (intro failed) (simp_all add: tracker_iteration_def)
  next
    case (Message v)
    show ?thesis
    proof (cases v)
      case Undecodable
      with False Message show ?thesis by (intro failed) (simp_all add: tracker_iteration_def)
    next
      case (Decoded y)
      show ?thesis
      proof (cases "\<exists>order. y = PDict order")
        case True
        then obtain order where "y = PDict order" by blast
        with False Message Decoded show ?thesis
          by (intro dict [of order]) (simp_all add: tracker_iteration_def)
      next
        case no: False
        with False Message Decoded show ?thesis
          by (intro nondict) (cases y; simp add: tracker_iteration_def)+
      qed
    qed
  qed
qed

lemma tracker_iteration_processed:
  "processed (metrics s) \<le> processed (metrics (snd (tracker_iteration a e s))) \<and>
   processed (metrics (snd (tracker_iteration a e s))) \<le> processed (metrics s) + 1"
  by (cases rule: tracker_iteration_cases [where e = e and a = a and s = s]) (auto simp: record_iteration_processed)

lemma tracker_iteration_no_periodic:
  "commit_every a \<le> 0 \<Longrightarrow> commits (snd (tracker_iteration a e s)) = commits s"
  by (cases rule: tracker_iteration_cases [where e = e and a = a and s = s]) (auto simp: record_iteration_no_periodic)

lemma tracker_iteration_continues:
  assumes "0 < commit_every a" and "tracker_iteration a e s = (None, s')"
  shows "commits s' = commits s @ periodic_marks (commit_every a) (processed (metrics s))
                                     (processed (metrics s'))"
proof (cases rule: tracker_iteration_cases [where e = e and a = a and s = s])
  case (dict order)
  with assms(2) have "fst (record_iteration a e order s) = None"
    and s': "s' = snd (record_iteration a e order s)"
    by simp_all
  from record_iteration_continues [OF assms(1) this(1)] show ?thesis
    by (simp add: s' record_iteration_processed)
qed (use assms(2) in auto)

lemma tracker_iteration_between:
  assumes "0 < commit_every a" and "tracker_iteration a e s = (Some Interrupted, s')"
    and "between_records e"
  shows "commits s' = commits s @ periodic_marks (commit_every a) (processed (metrics s))
                                     (processed (metrics s'))"
proof (cases rule: tracker_iteration_cases [where e = e and a = a and s = s])
  case (dict order)
  with assms(2) have "fst (record_iteration a e order s) = Some Interrupted"
    and s': "s' = snd (record_iteration a e order s)"
    by simp_all
  from record_iteration_between [OF assms(1) this(1) assms(3)] show ?thesis
    by (simp add: s' record_iteration_processed)
qed (use assms(2,3) in \<open>auto simp: between_records_def\<close>)


lemma tracker_iteration_valid:
  assumes "valid_record e"
  shows "fst (tracker_iteration a e s) = None \<and>
         processed (metrics (snd (tracker_iteration a e s))) = processed (metrics s) + 1"
proof -
  from assms obtain order where r: "result e = Message (Decoded (PDict order))"
    and c: "commit_returns e" and i: "interrupted e = None"
    and o: "\<not> (isinstance_int (dict_get order ''event_time_ms'') \<and>
              float_overflow (int_value (dict_get order ''event_time_ms'')))"
    by (auto simp: valid_record_def split: poll_result.splits msg_value.splits pyval.splits)
  have it: "tracker_iteration a e s = record_iteration a e order s"
    using r i by (simp add: tracker_iteration_def)
  obtain m where m: "add_latency (seen_at e) order (metrics (count_record s)) = Inr m"
    using o by (cases "isinstance_int (dict_get order ''event_time_ms'')")
      (simp_all add: add_latency_def Let_def)
  have "fst (record_iteration a e order s) = None"
    using c i m by (simp add: record_iteration_def Let_def)
  then show ?thesis
    by (simp add: it record_iteration_processed)
qed


lemma tracker_loop_step:
  "tracker_loop a (e # es) s = (out, s') \<Longrightarrow>
     (\<exists>s1. tracker_iteration a e s = (None, s1) \<and> tracker_loop a es s1 = (out, s')) \<or>
     tracker_iteration a e s = (Some out, s')"
  by (cases "tracker_iteration a e s") (auto split: option.splits)

lemma tracker_loop_processed_mono:
  "tracker_loop a es s = (out, s') \<Longrightarrow> processed (metrics s) \<le> processed (metrics s')"
proof (induction es arbitrary: s)
  case Nil
  then show ?case by simp
next
  case (Cons e es)
  from tracker_loop_step [OF Cons.prems] tracker_iteration_processed [of s a e]
  show ?case
    by (auto dest!: Cons.IH)
qed

lemma tracker_loop_between:
  assumes "0 < commit_every a" and "list_all between_records es"
    and "tracker_loop a es s = (Interrupted, s')"
  shows "commits s' = commits s @ periodic_marks (commit_every a) (processed (metrics s))
                                     (processed (metrics s'))"
  using assms(2,3)
proof (induction es arbitrary: s)
  case Nil
  then show ?case by simp
next
  case (Cons e es)
  from Cons.prems(1) have e: "between_records e" and es: "list_all between_records es"
    by simp_all
  from tracker_loop_step [OF Cons.prems(2)] show ?case
  proof
    assume "\<exists>s1. tracker_iteration a e s = (None, s1) \<and> tracker_loop a es s1 = (Interrupted, s')"
    then obtain s1 where it: "tracker_iteration a e s = (None, s1)"
      and rest: "tracker_loop a es s1 = (Interrupted, s')"
      by blast
    have "processed (metrics s) \<le> processed (metrics s1)"
      using tracker_iteration_processed [of s a e] it by simp
    moreover have "processed (metrics s1) \<le> processed (metrics s')"
      using rest by (rule tracker_loop_processed_mono)
    ultimately show ?thesis
      using tracker_iteration_continues [OF assms(1) it] Cons.IH [OF es rest]
        periodic_marks_join [OF assms(1)]
      by simp
  next
    assume "tracker_iteration a e s = (Some Interrupted, s')"
    then show ?thesis
      using e by (intro tracker_iteration_between [OF assms(1)])
  qed
qed


lemma tracker_loop_valid_records:
  assumes "\<forall>e \<in> set es. valid_record e"
  shows "fst (tracker_loop a es s) = Interrupted \<and>
         processed (metrics (snd (tracker_loop a es s))) = processed (metrics s) + int (length es)"
  using assms
proof (induction es arbitrary: s)
  case Nil
  then show ?case by simp
next
  case (Cons e es)
  from Cons.prems have v: "valid_record e" and rest: "\<forall>e \<in> set es. valid_record e"
    by simp_all
  obtain s1 where it: "tracker_iteration a e s = (None, s1)"
    and p: "processed (metrics s1) = processed (metrics s) + 1"
    using tracker_iteration_valid [OF v, of a s] by (cases "tracker_iteration a e s") simp
  show ?case
    using it p Cons.IH [OF rest, of s1] by simp
qed

lemma tracker_loop_no_periodic:
  assumes "commit_every a \<le> 0"
  shows "commits (snd (tracker_loop a es s)) = commits s"
proof (induction es arbitrary: s)
  case Nil
  then show ?case by simp
next
  case (Cons e es)
  obtain out s1 where it: "tracker_iteration a e s = (out, s1)"
    by (cases "tracker_iteration a e s")
  have "commits s1 = commits s"
    using tracker_iteration_no_periodic [OF assms, of e s] it by simp
  then show ?case
    using it Cons.IH [of s1] by (cases out) simp_all
qed


lemma valid_record_between: "valid_record e \<Longrightarrow> between_records e"
  by (simp add: valid_record_def between_records_def)

lemmas tracker_eval =
  tracker_main_def tracker_init_def sample_record_def tracker_iteration_def
  record_iteration_def add_latency_def count_record_def count_error_def tracker_report_def
  dict_get_def commit_every_args_def float_overflow_def Let_def


lemma seven_run:
  "tracker_main (commit_every_args 3) 0 seven_records =
     (Interrupted,
      \<lparr>metrics = \<lparr>processed = 7, errors = 0, latency_total_ms = 28000\<rparr>,
       last_report = 5, commits = [(Periodic, 3), (Periodic, 6), (Final, 7)], reports = 1\<rparr>)"
  by (simp add: tracker_eval seven_records_def)

lemma bool_run:
  "tracker_main (commit_every_args 100) 0 [bool_timestamp_record] =
     (Interrupted,
      \<lparr>metrics = \<lparr>processed = 1, errors = 0, latency_total_ms = 1999\<rparr>,
       last_report = 0, commits = [(Final, 1)], reports = 0\<rparr>)"
  by (simp add: tracker_eval bool_timestamp_record_def)


lemma tracker_main_valid_records:
  assumes "\<forall>e \<in> set es. valid_record e"
  shows "fst (tracker_main a t0 es) = Interrupted \<and>
         processed (metrics (snd (tracker_main a t0 es))) = int (length es)"
  using tracker_loop_valid_records [OF assms, of a "tracker_init t0"]
  by (cases "tracker_loop a es (tracker_init t0)") (simp add: tracker_main_def tracker_init_def)

lemma seven_records_valid: "\<forall>e \<in> set seven_records. valid_record e"
  by (simp add: seven_records_def sample_record_def valid_record_def dict_get_def
      float_overflow_def)





text \<open>
  Claim C2, as stated: with \<open>commit_every = 3\<close>, seven valid records and then the stop signal,
  the consumer would issue three periodic commits and four synchronous commits in all. On
  the code \<open>processed\<close> passes two multiples of 3 (3 and 6), so there are two periodic
  commits and three commits in all.
\<close>

theorem seven_records_commit_count_counterexample:
  "fst (tracker_main (commit_every_args 3) 0 seven_records) = Interrupted \<and>
   processed (metrics (snd (tracker_main (commit_every_args 3) 0 seven_records))) = 7 \<and>
   periodic_commit_calls (snd (tracker_main (commit_every_args 3) 0 seven_records)) = 2 \<and>
   sync_commit_calls (snd (tracker_main (commit_every_args 3) 0 seven_records)) = 3 \<and>
   \<not> (periodic_commit_calls (snd (tracker_main (commit_every_args 3) 0 seven_records)) = 3 \<and>
      sync_commit_calls (snd (tracker_main (commit_every_args 3) 0 seven_records)) = 4)"
  by (simp add: seven_run sync_commit_calls_def periodic_commit_calls_def)

text \<open>
  Claim C2, amended: with \<open>commit_every = 3\<close>, every run of exactly seven valid records
  followed by the stop signal ends normally with \<open>processed = 7\<close> and issues two periodic
  commits, after records 3 and 6, and the final one: three synchronous commits in all.
\<close>

theorem seven_records_three_commits:
  assumes "commit_every a = 3" and "length es = 7" and "list_all valid_record es"
  shows "fst (tracker_main a t0 es) = Interrupted \<and>
         processed (metrics (snd (tracker_main a t0 es))) = 7 \<and>
         commits (snd (tracker_main a t0 es)) = [(Periodic, 3), (Periodic, 6), (Final, 7)] \<and>
         periodic_commit_calls (snd (tracker_main a t0 es)) = 2 \<and>
         sync_commit_calls (snd (tracker_main a t0 es)) = 3"
proof -
  obtain out s1 where loop: "tracker_loop a es (tracker_init t0) = (out, s1)"
    by (cases "tracker_loop a es (tracker_init t0)")
  have valid: "\<forall>e \<in> set es. valid_record e"
    using assms(3) by (simp add: list_all_iff)
  then have between: "list_all between_records es"
    by (simp add: list_all_iff valid_record_between)
  have out: "out = Interrupted" and p: "processed (metrics s1) = 7"
    using tracker_loop_valid_records [OF valid, of a "tracker_init t0"] loop assms(2)
    by (simp_all add: tracker_init_def)
  have u: "[1 .. 2 :: int] = [1, 2]"
    by (simp add: upto.simps)
  have c: "0 < commit_every a"
    using assms(1) by simp
  have "commits s1 = [(Periodic, 3), (Periodic, 6)]"
    using tracker_loop_between [OF c between loop [unfolded out]] p assms(1)
    by (simp add: tracker_init_def periodic_marks_def u)
  then show ?thesis
    using loop out p
    by (simp add: tracker_main_def sync_commit_calls_def periodic_commit_calls_def)
qed

theorem seven_records_three_commits_witness:
  "commit_every (commit_every_args 3) = 3 \<and> length seven_records = 7 \<and>
   list_all valid_record seven_records \<and>
   fst (tracker_main (commit_every_args 3) 10 seven_records) = Interrupted \<and>
   processed (metrics (snd (tracker_main (commit_every_args 3) 10 seven_records))) = 7 \<and>
   commits (snd (tracker_main (commit_every_args 3) 10 seven_records))
     = [(Periodic, 3), (Periodic, 6), (Final, 7)]"
proof -
  have a: "commit_every (commit_every_args 3) = 3"
    by (simp add: commit_every_args_def)
  have l: "length seven_records = 7"
    by (simp add: seven_records_def)
  have v: "list_all valid_record seven_records"
    using seven_records_valid by (simp only: list_all_iff)
  from a l v seven_records_three_commits [OF a l v, of 10] show ?thesis
    by (elim conjE) (intro conjI)
qed

text \<open>
  Claim C10. With \<open>commit_every \<le> 0\<close> no periodic commit is ever issued, whatever is
  polled and however the loop ends; the only synchronous commit of the run is the final
  one of the \<open>finally\<close> block.
\<close>

theorem nonpositive_commit_every_final_only:
  assumes "commit_every a \<le> 0"
  shows "commits (snd (tracker_main a t0 es))
           = [(Final, processed (metrics (snd (tracker_main a t0 es))))] \<and>
         periodic_commit_calls (snd (tracker_main a t0 es)) = 0 \<and>
         sync_commit_calls (snd (tracker_main a t0 es)) = 1"
proof -
  obtain out s1 where loop: "tracker_loop a es (tracker_init t0) = (out, s1)"
    by (cases "tracker_loop a es (tracker_init t0)")
  have "commits s1 = []"
    using tracker_loop_no_periodic [OF assms, of es "tracker_init t0"] loop
    by (simp add: tracker_init_def)
  then show ?thesis
    using loop by (simp add: tracker_main_def sync_commit_calls_def periodic_commit_calls_def)
qed

theorem nonpositive_commit_every_final_only_witness:
  "commit_every (commit_every_args 0) \<le> 0 \<and>
   commits (snd (tracker_main (commit_every_args 0) 0 seven_records)) = [(Final, 7)] \<and>
   sync_commit_calls (snd (tracker_main (commit_every_args 0) 0 seven_records)) = 1 \<and>
   commit_every (commit_every_args (- 2)) \<le> 0 \<and>
   commits (snd (tracker_main (commit_every_args (- 2)) 0 seven_records)) = [(Final, 7)]"
proof -
  have z: "commit_every (commit_every_args 0) \<le> 0"
    and n: "commit_every (commit_every_args (- 2)) \<le> 0"
    by (simp_all add: commit_every_args_def)
  have l: "int (length seven_records) = 7"
    by (simp add: seven_records_def)
  have p: "processed (metrics (snd (tracker_main (commit_every_args 0) 0 seven_records))) = 7"
    and q: "processed (metrics (snd (tracker_main (commit_every_args (- 2)) 0 seven_records))) = 7"
    using tracker_main_valid_records [OF seven_records_valid] l by simp_all
  show ?thesis
    using nonpositive_commit_every_final_only [OF z, of 0 seven_records]
      nonpositive_commit_every_final_only [OF n, of 0 seven_records] z n
    by (simp only: p q)
qed

text \<open>
  A record whose \<open>event_time_ms\<close> fails \<open>isinstance(_, int)\<close> (absent, a string, a float, ...)
  leaves the latency total alone; it was counted on the line before.
\<close>

lemma add_latency_without_int_timestamp:
  assumes "\<not> isinstance_int (dict_get order ''event_time_ms'')"
  shows "add_latency now order m = Inr m"
  using assms by (simp add: add_latency_def Let_def)

text \<open>
  Claim C6 says that a decoded record without a well-typed (integer) \<open>event_time_ms\<close> leaves
  \<open>latency_total_ms\<close> unchanged while \<open>processed\<close> grows. The code run on the record
  \<open>{"order_id": "a1", "event_time_ms": true}\<close>, received at second 2: the boolean passes
  \<open>isinstance(event_time_ms, int)\<close>, and \<open>2000 - True = 1999\<close> ms are added to the total.
\<close>

theorem bool_event_time_adds_latency:
  "isinstance_int (dict_get [(''order_id'', PStr ''a1''), (''event_time_ms'', PBool True)] ''event_time_ms'') \<and>
   fst (tracker_main (commit_every_args 100) 0 [bool_timestamp_record]) = Interrupted \<and>
   processed (metrics (snd (tracker_main (commit_every_args 100) 0 [bool_timestamp_record]))) = 1 \<and>
   latency_total_ms (metrics (snd (tracker_main (commit_every_args 100) 0 [bool_timestamp_record]))) = 1999 \<and>
   latency_total_ms (metrics (snd (tracker_main (commit_every_args 100) 0 [bool_timestamp_record])))
     \<noteq> latency_total_ms (metrics (tracker_init 0))"
  by (simp add: bool_run tracker_init_def dict_get_def)

section \<open>Properties of the event factory\<close>

lemma map_of_dict_pop: "map_of (dict_pop d k) = (map_of d)(k := None)"
  by (simp add: dict_pop_def delete_conv')

lemma map_of_dict_set: "map_of (dict_set d k v) = (map_of d)(k \<mapsto> v)"
  by (simp add: dict_set_def update_conv')

lemma choice_INVALID_MODES:
  "choice INVALID_MODES pick \<in> set INVALID_MODES"
  by (simp add: choice_def INVALID_MODES_def del: set_simps(2))

lemma choice_INVALID_MODES_not_random: "choice INVALID_MODES pick \<noteq> ''random''"
  using choice_INVALID_MODES [of pick] by (auto simp: INVALID_MODES_def)

lemma create_order_fields:
  "map_of (create_order d) ''quantity'' = Some (PInt (quantity_pick d))"
  "map_of (create_order d) ''order_id'' = Some (PStr (uuid4 d))"
  "map_of (create_order d) ''invalid_mode'' = None"
  by (simp_all add: create_order_def Let_def)

lemma create_order_unit_price:
  "\<exists>x. map_of (create_order d) ''unit_price'' = Some (PFloat x)"
  by (simp add: create_order_def Let_def)

text \<open>
  Claim C8. For each of the five named strategies, \<open>create_invalid_order\<close> returns the
  order of \<open>create_order\<close> with exactly the documented change (\<open>unit_price\<close> removed,
  \<open>quantity\<close> removed, both removed, \<open>unit_price\<close> set to 0.0, \<open>quantity\<close> set to 0), every
  other field as it was, and \<open>invalid_mode\<close> set to the strategy's name. In mode \<open>random\<close>
  the strategy is the one the random source picks, and the picks 0 to 4 give the five
  strategies. The order it starts from has both fields and no \<open>invalid_mode\<close>.
\<close>

theorem invalid_modes_corrupt_documented_fields:
  "map_of (create_invalid_order ''missing_unit_price'' dp)
     = (map_of (create_order (fst dp)))
         (''unit_price'' := None, ''invalid_mode'' \<mapsto> PStr ''missing_unit_price'') \<and>
   map_of (create_invalid_order ''missing_quantity'' dp)
     = (map_of (create_order (fst dp)))
         (''quantity'' := None, ''invalid_mode'' \<mapsto> PStr ''missing_quantity'') \<and>
   map_of (create_invalid_order ''missing_both'' dp)
     = (map_of (create_order (fst dp)))
         (''unit_price'' := None, ''quantity'' := None, ''invalid_mode'' \<mapsto> PStr ''missing_both'') \<and>
   map_of (create_invalid_order ''non_positive_unit_price'' dp)
     = (map_of (create_order (fst dp)))
         (''unit_price'' \<mapsto> PFloat 0, ''invalid_mode'' \<mapsto> PStr ''non_positive_unit_price'') \<and>
   map_of (create_invalid_order ''non_positive_quantity'' dp)
     = (map_of (create_order (fst dp)))
         (''quantity'' \<mapsto> PInt 0, ''invalid_mode'' \<mapsto> PStr ''non_positive_quantity'') \<and>
   create_invalid_order ''random'' dp = create_invalid_order (choice INVALID_MODES (snd dp)) dp \<and>
   map (choice INVALID_MODES) [0, 1, 2, 3, 4] = INVALID_MODES \<and>
   map_of (create_order (fst dp)) ''quantity'' = Some (PInt (quantity_pick (fst dp))) \<and>
   map_of (create_order (fst dp)) ''unit_price'' \<noteq> None \<and>
   map_of (create_order (fst dp)) ''invalid_mode'' = None"
proof -
  have r: "create_invalid_order ''random'' dp = create_invalid_order (choice INVALID_MODES (snd dp)) dp"
    using choice_INVALID_MODES_not_random [of "snd dp"] by (simp add: create_invalid_order_def)
  have c: "map (choice INVALID_MODES) [0, 1, 2, 3, 4] = INVALID_MODES"
    by (simp add: choice_def INVALID_MODES_def)
  have p: "map_of (create_order (fst dp)) ''unit_price'' \<noteq> None"
    using create_order_unit_price [of "fst dp"] by auto
  have q: "map_of (create_order (fst dp)) ''quantity'' = Some (PInt (quantity_pick (fst dp)))"
    and i: "map_of (create_order (fst dp)) ''invalid_mode'' = None"
    by (simp_all add: create_order_fields)
  have m1: "map_of (create_invalid_order ''missing_unit_price'' dp)
     = (map_of (create_order (fst dp)))
         (''unit_price'' := None, ''invalid_mode'' \<mapsto> PStr ''missing_unit_price'')"
    by (simp add: create_invalid_order_def map_of_dict_pop map_of_dict_set)
  have m2: "map_of (create_invalid_order ''missing_quantity'' dp)
     = (map_of (create_order (fst dp)))
         (''quantity'' := None, ''invalid_mode'' \<mapsto> PStr ''missing_quantity'')"
    by (simp add: create_invalid_order_def map_of_dict_pop map_of_dict_set)
  have m3: "map_of (create_invalid_order ''missing_both'' dp)
     = (map_of (create_order (fst dp)))
         (''unit_price'' := None, ''quantity'' := None, ''invalid_mode'' \<mapsto> PStr ''missing_both'')"
    by (simp add: create_invalid_order_def map_of_dict_pop map_of_dict_set)
  have m4: "map_of (create_invalid_order ''non_positive_unit_price'' dp)
     = (map_of (create_order (fst dp)))
         (''unit_price'' \<mapsto> PFloat 0, ''invalid_mode'' \<mapsto> PStr ''non_positive_unit_price'')"
    by (simp add: create_invalid_order_def map_of_dict_pop map_of_dict_set)
  have m5: "map_of (create_invalid_order ''non_positive_quantity'' dp)
     = (map_of (create_order (fst dp)))
         (''quantity'' \<mapsto> PInt 0, ''invalid_mode'' \<mapsto> PStr ''non_positive_quantity'')"
    by (simp add: create_invalid_order_def map_of_dict_pop map_of_dict_set)
  from m1 m2 m3 m4 m5 r c q p i show ?thesis
    by (intro conjI)
qed

section \<open>Properties of the producers\<close>

lemma serve_callbacks_keeps [simp]:
  "clock (serve_callbacks as s) = clock s"
  "start (serve_callbacks as s) = start s"
  "next_send_time (serve_callbacks as s) = next_send_time s"
  "produced (serve_callbacks as s) = produced s"
  "p_last_report (serve_callbacks as s) = p_last_report s"
  "calls (serve_callbacks as s) = calls s"
  "sleeps (serve_callbacks as s) = sleeps s"
  "p_reports (serve_callbacks as s) = p_reports s"
  by (simp_all add: serve_callbacks_def split: prod.splits)

lemma producer_report_keeps [simp]:
  "clock (producer_report a s) = clock s"
  "start (producer_report a s) = start s"
  "next_send_time (producer_report a s) = next_send_time s"
  "produced (producer_report a s) = produced s"
  "p_metrics (producer_report a s) = p_metrics s"
  "in_flight (producer_report a s) = in_flight s"
  "calls (producer_report a s) = calls s"
  "sleeps (producer_report a s) = sleeps s"
  by (simp_all add: producer_report_def)

lemma pace_keeps [simp]:
  "start (pace a over s) = start s"
  "produced (pace a over s) = produced s"
  "p_metrics (pace a over s) = p_metrics s"
  "in_flight (pace a over s) = in_flight s"
  "calls (pace a over s) = calls s"
  "p_last_report (pace a over s) = p_last_report s"
  "p_reports (pace a over s) = p_reports s"
  by (simp_all add: pace_def Let_def)

lemma pace_sleeps:
  "clock s < next_send_time s + 1 / events_per_second a \<Longrightarrow>
     next_send_time (pace a over s) = next_send_time s + 1 / events_per_second a \<and>
     sleeps (pace a over s) = sleeps s @ [next_send_time s + 1 / events_per_second a - clock s] \<and>
     clock (pace a over s) = next_send_time s + 1 / events_per_second a + over"
  by (simp add: pace_def Let_def)

lemma pace_resets:
  "next_send_time s + 1 / events_per_second a \<le> clock s \<Longrightarrow>
     next_send_time (pace a over s) = clock s \<and>
     sleeps (pace a over s) = sleeps s \<and>
     clock (pace a over s) = clock s"
  by (simp add: pace_def Let_def)

lemma send_iteration_accepted:
  "accepted t \<Longrightarrow>
   send_iteration f a t s =
     producer_report a (pace a (oversleep t) (serve_callbacks (acks t)
       (s\<lparr>clock := clock s + create_time t + send_time t,
          calls := calls s @ [Produce (f (draws t)) True, Poll 0],
          in_flight := in_flight s @ [clock s + create_time t],
          produced := produced s + 1\<rparr>)))"
  by (simp add: send_iteration_def Let_def)

lemma send_iteration_rejected:
  "\<not> accepted t \<Longrightarrow>
   send_iteration f a t s =
     serve_callbacks (acks t)
       (s\<lparr>clock := clock s + create_time t + send_time t,
          calls := calls s @ [Produce (f (draws t)) False, Poll (1 / 10)]\<rparr>)"
  by (simp add: send_iteration_def Let_def)

text \<open>
  Claim C4. The pacer keeps one deadline, \<open>next_send_time\<close>, which starts at the run's
  start time. After a send the client takes, the deadline moves on by exactly \<open>1/r\<close>; when it
  then lies ahead of the clock the thread sleeps for the difference \<open>next_send_time - now\<close>,
  and when it has passed the deadline is set to the clock's time and nothing is slept, so
  no missed tick is made up. After a send the client refuses (\<open>BufferError\<close>) the deadline
  stays where it was and nothing is slept.
\<close>

theorem pacer_deadline:
  "next_send_time (producer_init t0) = t0 \<and> start (producer_init t0) = t0 \<and>
   (accepted t \<and> clock s + create_time t + send_time t < next_send_time s + 1 / events_per_second a \<longrightarrow>
      next_send_time (send_iteration f a t s) = next_send_time s + 1 / events_per_second a \<and>
      sleeps (send_iteration f a t s)
        = sleeps s @ [next_send_time s + 1 / events_per_second a
                       - (clock s + create_time t + send_time t)] \<and>
      clock (send_iteration f a t s) = next_send_time s + 1 / events_per_second a + oversleep t) \<and>
   (accepted t \<and> next_send_time s + 1 / events_per_second a \<le> clock s + create_time t + send_time t \<longrightarrow>
      next_send_time (send_iteration f a t s) = clock s + create_time t + send_time t \<and>
      sleeps (send_iteration f a t s) = sleeps s \<and>
      clock (send_iteration f a t s) = clock s + create_time t + send_time t) \<and>
   (\<not> accepted t \<longrightarrow>
      next_send_time (send_iteration f a t s) = next_send_time s \<and>
      sleeps (send_iteration f a t s) = sleeps s \<and>
      produced (send_iteration f a t s) = produced s)"
proof -
  let ?s2 = "serve_callbacks (acks t)
       (s\<lparr>clock := clock s + create_time t + send_time t,
          calls := calls s @ [Produce (f (draws t)) True, Poll 0],
          in_flight := in_flight s @ [clock s + create_time t],
          produced := produced s + 1\<rparr>)"
  have c: "clock ?s2 = clock s + create_time t + send_time t"
    and n: "next_send_time ?s2 = next_send_time s" and sl: "sleeps ?s2 = sleeps s"
    by simp_all
  have init: "next_send_time (producer_init t0) = t0 \<and> start (producer_init t0) = t0"
    by (simp add: producer_init_def)
  have sleep: "accepted t \<and> clock s + create_time t + send_time t < next_send_time s + 1 / events_per_second a \<longrightarrow>
      next_send_time (send_iteration f a t s) = next_send_time s + 1 / events_per_second a \<and>
      sleeps (send_iteration f a t s)
        = sleeps s @ [next_send_time s + 1 / events_per_second a
                       - (clock s + create_time t + send_time t)] \<and>
      clock (send_iteration f a t s) = next_send_time s + 1 / events_per_second a + oversleep t"
    using pace_sleeps [of ?s2 a "oversleep t"] by (simp add: send_iteration_accepted c n sl)
  have reset: "accepted t \<and> next_send_time s + 1 / events_per_second a \<le> clock s + create_time t + send_time t \<longrightarrow>
      next_send_time (send_iteration f a t s) = clock s + create_time t + send_time t \<and>
      sleeps (send_iteration f a t s) = sleeps s \<and>
      clock (send_iteration f a t s) = clock s + create_time t + send_time t"
    using pace_resets [of ?s2 a "oversleep t"] by (simp add: send_iteration_accepted c n sl)
  have skip: "\<not> accepted t \<longrightarrow>
      next_send_time (send_iteration f a t s) = next_send_time s \<and>
      sleeps (send_iteration f a t s) = sleeps s \<and>
      produced (send_iteration f a t s) = produced s"
    by (simp add: send_iteration_rejected)
  from init sleep reset skip show ?thesis
    by (intro conjI) (elim conjE, assumption)+
qed


theorem pacer_deadline_witness:
  "next_send_time (producer_init 100) = 100 \<and>
   accepted (busy_tick (sample_draws ''e1'') (2 / 100) True) \<and>
   next_send_time (send_iteration create_order (rate_args 5 0)
      (busy_tick (sample_draws ''e1'') (2 / 100) True) (producer_init 100)) = 100 + 1 / 5 \<and>
   sleeps (send_iteration create_order (rate_args 5 0)
      (busy_tick (sample_draws ''e1'') (2 / 100) True) (producer_init 100)) = [17 / 100] \<and>
   clock (send_iteration create_order (rate_args 5 0)
      (busy_tick (sample_draws ''e1'') (2 / 100) True) (producer_init 100)) = 100 + 1 / 5 + 1 / 1000 \<and>
   accepted (busy_tick (sample_draws ''e1'') (1 / 2) True) \<and>
   next_send_time (send_iteration create_order (rate_args 5 0)
      (busy_tick (sample_draws ''e1'') (1 / 2) True) (producer_init 100)) = 100 + 51 / 100 \<and>
   sleeps (send_iteration create_order (rate_args 5 0)
      (busy_tick (sample_draws ''e1'') (1 / 2) True) (producer_init 100)) = [] \<and>
   \<not> accepted (busy_tick (sample_draws ''e1'') (1 / 10) False) \<and>
   next_send_time (send_iteration create_order (rate_args 5 0)
      (busy_tick (sample_draws ''e1'') (1 / 10) False) (producer_init 100)) = 100 \<and>
   sleeps (send_iteration create_order (rate_args 5 0)
      (busy_tick (sample_draws ''e1'') (1 / 10) False) (producer_init 100)) = []"
proof -
  let ?a = "rate_args 5 0" and ?s = "producer_init 100"
  let ?t1 = "busy_tick (sample_draws ''e1'') (2 / 100) True"
  let ?t2 = "busy_tick (sample_draws ''e1'') (1 / 2) True"
  let ?t3 = "busy_tick (sample_draws ''e1'') (1 / 10) False"
  have s: "clock ?s = 100" "next_send_time ?s = 100" "sleeps ?s = []"
    by (simp_all add: producer_init_def)
  have r: "events_per_second ?a = 5"
    by (simp add: rate_args_def)
  have b: "\<And>d took ok. accepted (busy_tick d took ok) = ok"
    "\<And>d took ok. create_time (busy_tick d took ok) = 1 / 100"
    "\<And>d took ok. send_time (busy_tick d took ok) = took"
    "\<And>d took ok. oversleep (busy_tick d took ok) = 1 / 1000"
    by (simp_all add: busy_tick_def)
  have w1: "next_send_time (send_iteration create_order ?a ?t1 ?s) = 100 + 1 / 5 \<and>
            sleeps (send_iteration create_order ?a ?t1 ?s) = [17 / 100] \<and>
            clock (send_iteration create_order ?a ?t1 ?s) = 100 + 1 / 5 + 1 / 1000"
    using pacer_deadline [of 100 ?t1 ?s ?a create_order] by (simp add: s r b)
  have w2: "next_send_time (send_iteration create_order ?a ?t2 ?s) = 100 + 51 / 100 \<and>
            sleeps (send_iteration create_order ?a ?t2 ?s) = []"
    using pacer_deadline [of 100 ?t2 ?s ?a create_order] by (simp add: s r b)
  have w3: "next_send_time (send_iteration create_order ?a ?t3 ?s) = 100 \<and>
            sleeps (send_iteration create_order ?a ?t3 ?s) = []"
    using pacer_deadline [of 100 ?t3 ?s ?a create_order] by (simp add: s b)
  have t: "accepted ?t1" "accepted ?t2" "\<not> accepted ?t3"
    by (simp_all add: b)
  from s(2) t w1 w2 w3 show ?thesis
    by (intro conjI) (elim conjE, assumption)+
qed

text \<open>
  Claim C9. Both producers, started with \<open>--events-per-second\<close> at or below zero, raise
  \<open>ValueError\<close> before \<open>Producer(...)\<close> is built: the run ends with no client call made.
  With a rate above zero the startup check raises nothing.
\<close>

theorem nonpositive_rate_fails_at_startup:
  "(events_per_second a \<le> 0 \<longrightarrow>
      producer_main a env
        = Raised (ValueError ''--events-per-second must be greater than 0'') [] \<and>
      producer_invalid_main invalid_mode a env'
        = Raised (ValueError ''--events-per-second must be greater than 0'') []) \<and>
   (0 < events_per_second a \<longrightarrow>
      (\<forall>e cs. producer_main a env \<noteq> Raised e cs) \<and>
      (\<forall>e cs. producer_invalid_main invalid_mode a env' \<noteq> Raised e cs))"
  by (simp add: producer_main_def producer_invalid_main_def producer_run_def split: option.splits)

theorem nonpositive_rate_fails_at_startup_witness:
  "events_per_second (rate_args 0 10) \<le> 0 \<and>
   producer_main (rate_args 0 10) stopped_at_once
     = Raised (ValueError ''--events-per-second must be greater than 0'') [] \<and>
   events_per_second (rate_args (- 5 / 2) 10) \<le> 0 \<and>
   producer_main (rate_args (- 5 / 2) 10) stopped_at_once
     = Raised (ValueError ''--events-per-second must be greater than 0'') [] \<and>
   0 < events_per_second (rate_args (1 / 100) 10) \<and>
   producer_main (rate_args (1 / 100) 10) stopped_at_once
     \<noteq> Raised (ValueError ''--events-per-second must be greater than 0'') []"
proof -
  have z: "events_per_second (rate_args 0 10) \<le> 0"
    and n: "events_per_second (rate_args (- 5 / 2) 10) \<le> 0"
    and p: "0 < events_per_second (rate_args (1 / 100) 10)"
    by (simp_all add: rate_args_def)
  from z n p
    nonpositive_rate_fails_at_startup [of "rate_args 0 10" stopped_at_once]
    nonpositive_rate_fails_at_startup [of "rate_args (- 5 / 2) 10" stopped_at_once]
    nonpositive_rate_fails_at_startup [of "rate_args (1 / 100) 10" stopped_at_once]
  show ?thesis
    by blast
qed

text \<open>What the callbacks and one iteration do to the counters, the clock and the call log.\<close>

lemma delivery_report_counts:
  "sent_ok m \<le> sent_ok (delivery_report err st now m)"
  "sent_error m \<le> sent_error (delivery_report err st now m)"
  "sent_ok (delivery_report err st now m) + sent_error (delivery_report err st now m)
     = sent_ok m + sent_error m + 1"
  by (simp_all add: delivery_report_def split: option.splits)

lemma delivery_report_latency:
  "st \<le> now \<Longrightarrow> ack_latency_total_ms m \<le> ack_latency_total_ms (delivery_report err st now m)"
  by (simp add: delivery_report_def split: option.splits)

lemma deliver_counts:
  "sent_ok m \<le> sent_ok (snd (deliver as now (q, m))) \<and>
   sent_error m \<le> sent_error (snd (deliver as now (q, m))) \<and>
   sent_ok (snd (deliver as now (q, m))) + sent_error (snd (deliver as now (q, m)))
     + int (length (fst (deliver as now (q, m))))
     = sent_ok m + sent_error m + int (length q)"
proof (induction as arbitrary: q m)
  case Nil
  show ?case by simp
next
  case (Cons x as)
  obtain i err where x: "x = (i, err)" by (cases x)
  show ?case
  proof (cases "i < length q")
    case True
    let ?q = "take i q @ drop (Suc i) q" and ?m = "delivery_report err (q ! i) now m"
    have len: "int (length ?q) = int (length q) - 1"
      using True by (simp add: min_def)
    from Cons.IH [of ?m ?q] delivery_report_counts [where m = m and err = err and st = "q ! i" and now = now] len True x
    show ?thesis by simp
  next
    case False
    with Cons.IH [of m q] x show ?thesis by simp
  qed
qed

lemma deliver_past:
  "list_all (\<lambda>st. st \<le> now) q \<Longrightarrow>
     list_all (\<lambda>st. st \<le> now) (fst (deliver as now (q, m))) \<and>
     ack_latency_total_ms m \<le> ack_latency_total_ms (snd (deliver as now (q, m)))"
proof (induction as arbitrary: q m)
  case Nil
  then show ?case by simp
next
  case (Cons x as)
  obtain i err where x: "x = (i, err)" by (cases x)
  show ?case
  proof (cases "i < length q")
    case True
    let ?q = "take i q @ drop (Suc i) q" and ?m = "delivery_report err (q ! i) now m"
    have sub: "set ?q \<subseteq> set q"
      using set_take_subset [of i q] set_drop_subset [of "Suc i" q] by auto
    with Cons.prems have past: "list_all (\<lambda>st. st \<le> now) ?q"
      by (auto simp: list_all_iff)
    have "q ! i \<le> now"
      using Cons.prems True by (simp add: list_all_length)
    then have "ack_latency_total_ms m \<le> ack_latency_total_ms ?m"
      by (rule delivery_report_latency)
    with Cons.IH [OF past, of ?m] True x show ?thesis by simp
  next
    case False
    with Cons.IH [OF Cons.prems, of m] x show ?thesis by simp
  qed
qed


lemma serve_callbacks_counts:
  "sent_ok (p_metrics s) \<le> sent_ok (p_metrics (serve_callbacks as s)) \<and>
   sent_error (p_metrics s) \<le> sent_error (p_metrics (serve_callbacks as s)) \<and>
   sent_ok (p_metrics (serve_callbacks as s)) + sent_error (p_metrics (serve_callbacks as s))
     + int (length (in_flight (serve_callbacks as s)))
     = sent_ok (p_metrics s) + sent_error (p_metrics s) + int (length (in_flight s))"
  using deliver_counts [where m = "p_metrics s" and as = as and now = "clock s" and q = "in_flight s"]
  by (cases "deliver as (clock s) (in_flight s, p_metrics s)") (simp add: serve_callbacks_def)

lemma serve_callbacks_past:
  "started_in_past s \<Longrightarrow>
     started_in_past (serve_callbacks as s) \<and>
     ack_latency_total_ms (p_metrics s) \<le> ack_latency_total_ms (p_metrics (serve_callbacks as s))"
  using deliver_past [where m = "p_metrics s" and as = as and now = "clock s" and q = "in_flight s"]
  by (cases "deliver as (clock s) (in_flight s, p_metrics s)")
     (simp add: serve_callbacks_def started_in_past_def)


lemma serve_callbacks_nothing [simp]: "serve_callbacks [] s = s"
  by (simp add: serve_callbacks_def)




lemma send_iteration_counts:
  "sent_ok (p_metrics s) \<le> sent_ok (p_metrics (send_iteration f a t s)) \<and>
   sent_error (p_metrics s) \<le> sent_error (p_metrics (send_iteration f a t s)) \<and>
   sent_ok (p_metrics (send_iteration f a t s)) + sent_error (p_metrics (send_iteration f a t s))
     + int (length (in_flight (send_iteration f a t s))) - produced (send_iteration f a t s)
     = sent_ok (p_metrics s) + sent_error (p_metrics s) + int (length (in_flight s)) - produced s"
proof (cases "accepted t")
  case True
  let ?s2 = "s\<lparr>clock := clock s + create_time t + send_time t,
          calls := calls s @ [Produce (f (draws t)) True, Poll 0],
          in_flight := in_flight s @ [clock s + create_time t],
          produced := produced s + 1\<rparr>"
  from serve_callbacks_counts [of ?s2 "acks t"] True show ?thesis
    by (simp add: send_iteration_accepted)
next
  case False
  let ?s1 = "s\<lparr>clock := clock s + create_time t + send_time t,
          calls := calls s @ [Produce (f (draws t)) False, Poll (1 / 10)]\<rparr>"
  from serve_callbacks_counts [of ?s1 "acks t"] False show ?thesis
    by (simp add: send_iteration_rejected)
qed

lemma pace_clock: "0 \<le> over \<Longrightarrow> clock s \<le> clock (pace a over s)"
  by (simp add: pace_def Let_def)

lemma started_in_past_later:
  "started_in_past s \<Longrightarrow> in_flight s' = in_flight s \<Longrightarrow> clock s \<le> clock s' \<Longrightarrow> started_in_past s'"
  by (auto simp: started_in_past_def list_all_iff)

lemma send_iteration_past:
  assumes "steady_clock t" and "started_in_past s"
  shows "started_in_past (send_iteration f a t s) \<and>
         ack_latency_total_ms (p_metrics s)
           \<le> ack_latency_total_ms (p_metrics (send_iteration f a t s)) \<and>
         clock s \<le> clock (send_iteration f a t s)"
proof (cases "accepted t")
  case True
  let ?s2 = "s\<lparr>clock := clock s + create_time t + send_time t,
          calls := calls s @ [Produce (f (draws t)) True, Poll 0],
          in_flight := in_flight s @ [clock s + create_time t],
          produced := produced s + 1\<rparr>"
  let ?s3 = "serve_callbacks (acks t) ?s2"
  let ?s4 = "pace a (oversleep t) ?s3"
  have "started_in_past ?s2"
    using assms by (auto simp: started_in_past_def steady_clock_def list_all_iff)
  from serve_callbacks_past [OF this, of "acks t"]
  have p3: "started_in_past ?s3"
    and l3: "ack_latency_total_ms (p_metrics s) \<le> ack_latency_total_ms (p_metrics ?s3)"
    by simp_all
  have c4: "clock ?s3 \<le> clock ?s4"
    using assms(1) by (intro pace_clock) (simp add: steady_clock_def)
  have p4: "started_in_past ?s4"
    using p3 _ c4 by (rule started_in_past_later) simp
  have p5: "started_in_past (producer_report a ?s4)"
    using p4 by (rule started_in_past_later) simp_all
  have "clock s \<le> clock ?s3"
    using assms(1) by (simp add: steady_clock_def)
  with c4 have "clock s \<le> clock ?s4" by simp
  with p5 l3 True show ?thesis
    by (simp add: send_iteration_accepted)
next
  case False
  let ?s1 = "s\<lparr>clock := clock s + create_time t + send_time t,
          calls := calls s @ [Produce (f (draws t)) False, Poll (1 / 10)]\<rparr>"
  have "started_in_past ?s1"
    using assms by (auto simp: started_in_past_def steady_clock_def list_all_iff)
  from serve_callbacks_past [OF this, of "acks t"] assms(1) False show ?thesis
    by (simp add: send_iteration_rejected steady_clock_def)
qed


lemma producer_loop_invariant:
  assumes "producer_loop f a stop ts s = Some s'" and "P s"
    and "\<And>t s. t \<in> set ts \<Longrightarrow> P s \<Longrightarrow> P (send_iteration f a t s)"
  shows "P s'"
  using assms
proof (induction ts arbitrary: s)
  case Nil
  then show ?case by (simp split: if_splits)
next
  case (Cons t ts)
  show ?case
  proof (cases "loop_exits a stop s")
    case True
    with Cons.prems show ?thesis by simp
  next
    case False
    with Cons.prems(1) have run: "producer_loop f a stop ts (send_iteration f a t s) = Some s'"
      by simp
    have "P (send_iteration f a t s)"
      using Cons.prems(2,3) by simp
    with run show ?thesis
      using Cons.prems(3) by (intro Cons.IH) simp_all
  qed
qed


text \<open>Sample runs of the producer, evaluated once; counters over a whole run.\<close>

lemmas producer_eval =
  producer_main_def producer_run_def producer_init_def loop_exits_def should_stop_def
  send_iteration_def serve_callbacks_def pace_def producer_report_def delivery_report_def
  flush_def rate_args_def Let_def

lemma two_sends_run: "producer_main (rate_args 5 2) two_sends = Finished two_sends_final"
  by (simp add: producer_eval two_sends_def two_sends_final_def)

lemma producer_run_counts:
  assumes "producer_run f a env = Finished s'"
  shows "0 \<le> sent_ok (p_metrics s') \<and> 0 \<le> sent_error (p_metrics s') \<and>
         sent_ok (p_metrics s') + sent_error (p_metrics s') + int (length (in_flight s'))
           = produced s'"
proof -
  let ?P = "\<lambda>s. 0 \<le> sent_ok (p_metrics s) \<and> 0 \<le> sent_error (p_metrics s) \<and>
         sent_ok (p_metrics s) + sent_error (p_metrics s) + int (length (in_flight s)) = produced s"
  from assms obtain s where loop:
    "producer_loop f a (stop_at env) (ticks env) (producer_init (started env)) = Some s"
    and s': "s' = flush (flush_time env) (flush_acks env) s"
    by (auto simp: producer_run_def split: if_splits option.splits)
  have "?P s"
  proof (rule producer_loop_invariant [OF loop, where P = ?P])
    show "?P (producer_init (started env))"
      by (simp add: producer_init_def)
  next
    fix t and s :: producer_state assume "?P s"
    with send_iteration_counts [of s f a t] show "?P (send_iteration f a t s)"
      by linarith
  qed
  with serve_callbacks_counts
    [of "s\<lparr>clock := clock s + flush_time env, calls := calls s @ [Flush 10]\<rparr>" "flush_acks env"]
  show ?thesis
    unfolding s' flush_def by simp
qed

lemma producer_run_latency:
  assumes "producer_run f a env = Finished s'"
    and "list_all steady_clock (ticks env)" and "0 \<le> flush_time env"
  shows "0 \<le> ack_latency_total_ms (p_metrics s')"
proof -
  let ?P = "\<lambda>s. started_in_past s \<and> 0 \<le> ack_latency_total_ms (p_metrics s)"
  from assms(1) obtain s where loop:
    "producer_loop f a (stop_at env) (ticks env) (producer_init (started env)) = Some s"
    and s': "s' = flush (flush_time env) (flush_acks env) s"
    by (auto simp: producer_run_def split: if_splits option.splits)
  have s: "?P s"
  proof (rule producer_loop_invariant [OF loop, where P = ?P])
    show "?P (producer_init (started env))"
      by (simp add: producer_init_def started_in_past_def)
  next
    fix t and s :: producer_state assume "t \<in> set (ticks env)" and P: "?P s"
    then have "steady_clock t"
      using assms(2) by (simp add: list_all_iff)
    from send_iteration_past [OF this, of s f a] P show "?P (send_iteration f a t s)"
      by simp
  qed
  let ?s1 = "s\<lparr>clock := clock s + flush_time env, calls := calls s @ [Flush 10]\<rparr>"
  have "started_in_past ?s1"
    using s assms(3) by (auto simp: started_in_past_def list_all_iff)
  from serve_callbacks_past [OF this, of "flush_acks env"] s show ?thesis
    unfolding s' flush_def by simp
qed


lemma clock_set_back_run:
  "run_metrics (producer_main (rate_args 5 1) clock_set_back)
     = Some \<lparr>sent_ok = 1, sent_error = 0, ack_latency_total_ms = - 1000\<rparr>"
  by (simp add: producer_eval clock_set_back_def run_metrics_def)

text \<open>
  Claim C7, as stated: every successful delivery would add a non-negative round trip to
  \<open>ack_latency_total_ms\<close>. The round trip is a difference of two readings of \<open>time.time()\<close>
  (lines 152 and 133), and the wall clock can be set back: in the run below the send is
  issued at 100 s and acknowledged at 99 s, and the callback adds -1000 ms.
\<close>

theorem clock_set_back_negative_latency_counterexample:
  "run_metrics (producer_main (rate_args 5 1) clock_set_back)
     = Some \<lparr>sent_ok = 1, sent_error = 0, ack_latency_total_ms = - 1000\<rparr> \<and>
   delivery_report None 100 99 \<lparr>sent_ok = 0, sent_error = 0, ack_latency_total_ms = 0\<rparr>
     = \<lparr>sent_ok = 1, sent_error = 0, ack_latency_total_ms = - 1000\<rparr> \<and>
   \<not> 0 \<le> ack_latency_total_ms
           (delivery_report None 100 99 \<lparr>sent_ok = 0, sent_error = 0, ack_latency_total_ms = 0\<rparr>)"
  by (simp add: clock_set_back_run delivery_report_def)

text \<open>
  Claim C7, amended. \<open>sent_ok\<close> and \<open>sent_error\<close> never decrease, and only the delivery
  callback moves them: a successful delivery adds one to \<open>sent_ok\<close> and the round trip
  \<open>(now - started_at) * 1000\<close> to \<open>ack_latency_total_ms\<close>, and that addition is non-negative
  exactly when the clock read in the callback is not behind the one read at the send; a
  failed delivery adds one to \<open>sent_error\<close> and changes nothing else. An iteration in which
  the client serves no callback leaves the metrics as they were, whatever it sends. The
  callbacks make no client call and do not touch \<open>produced\<close>, so a failed event is not sent
  again. Over a finished run the callbacks counted and the callbacks still pending add up
  to the sends the client took, and when no step of the run's clock is negative the
  latency total is not negative.
\<close>

theorem delivery_callback_counters:
  "delivery_report None started_at now m
     = m\<lparr>sent_ok := sent_ok m + 1,
         ack_latency_total_ms := ack_latency_total_ms m + (now - started_at) * 1000\<rparr> \<and>
   delivery_report (Some err) started_at now m = m\<lparr>sent_error := sent_error m + 1\<rparr> \<and>
   (0 \<le> (now - started_at) * 1000) = (started_at \<le> now) \<and>
   (ack_latency_total_ms m \<le> ack_latency_total_ms (delivery_report None started_at now m))
     = (started_at \<le> now) \<and>
   (acks t = [] \<longrightarrow> p_metrics (send_iteration f a t s) = p_metrics s) \<and>
   sent_ok (p_metrics s) \<le> sent_ok (p_metrics (send_iteration f a t s)) \<and>
   sent_error (p_metrics s) \<le> sent_error (p_metrics (send_iteration f a t s)) \<and>
   sent_ok (p_metrics s) \<le> sent_ok (p_metrics (flush took as s)) \<and>
   sent_error (p_metrics s) \<le> sent_error (p_metrics (flush took as s)) \<and>
   calls (serve_callbacks as s) = calls s \<and>
   produced (serve_callbacks as s) = produced s \<and>
   (producer_run f a env = Finished s' \<longrightarrow>
      0 \<le> sent_ok (p_metrics s') \<and> 0 \<le> sent_error (p_metrics s') \<and>
      sent_ok (p_metrics s') + sent_error (p_metrics s') + int (length (in_flight s'))
        = produced s') \<and>
   (producer_run f a env = Finished s' \<and> list_all steady_clock (ticks env) \<and> 0 \<le> flush_time env \<longrightarrow>
      0 \<le> ack_latency_total_ms (p_metrics s'))"
proof -
  have ok: "delivery_report None started_at now m
     = m\<lparr>sent_ok := sent_ok m + 1,
         ack_latency_total_ms := ack_latency_total_ms m + (now - started_at) * 1000\<rparr>"
    and err: "delivery_report (Some err) started_at now m = m\<lparr>sent_error := sent_error m + 1\<rparr>"
    by (simp_all add: delivery_report_def)
  have lat: "(0 \<le> (now - started_at) * 1000) = (started_at \<le> now)"
    "(ack_latency_total_ms m \<le> ack_latency_total_ms (delivery_report None started_at now m))
       = (started_at \<le> now)"
    by (simp_all add: delivery_report_def)
  have send: "acks t = [] \<longrightarrow> p_metrics (send_iteration f a t s) = p_metrics s"
    by (cases "accepted t") (simp_all add: send_iteration_accepted send_iteration_rejected)
  have it: "sent_ok (p_metrics s) \<le> sent_ok (p_metrics (send_iteration f a t s))"
    "sent_error (p_metrics s) \<le> sent_error (p_metrics (send_iteration f a t s))"
    using send_iteration_counts [of s f a t] by simp_all
  have fl: "sent_ok (p_metrics s) \<le> sent_ok (p_metrics (flush took as s))"
    "sent_error (p_metrics s) \<le> sent_error (p_metrics (flush took as s))"
    using serve_callbacks_counts [of "s\<lparr>clock := clock s + took, calls := calls s @ [Flush 10]\<rparr>" as]
    by (simp_all add: flush_def)
  have cb: "calls (serve_callbacks as s) = calls s" "produced (serve_callbacks as s) = produced s"
    by simp_all
  have run: "producer_run f a env = Finished s' \<longrightarrow>
      0 \<le> sent_ok (p_metrics s') \<and> 0 \<le> sent_error (p_metrics s') \<and>
      sent_ok (p_metrics s') + sent_error (p_metrics s') + int (length (in_flight s'))
        = produced s'"
    using producer_run_counts [of f a env s'] by blast
  have rl: "producer_run f a env = Finished s' \<and> list_all steady_clock (ticks env) \<and> 0 \<le> flush_time env \<longrightarrow>
      0 \<le> ack_latency_total_ms (p_metrics s')"
    using producer_run_latency [of f a env s'] by blast
  from ok err lat send it fl cb run rl show ?thesis
    by (intro conjI)
qed

theorem delivery_callback_counters_witness:
  "producer_main (rate_args 5 2) two_sends = Finished two_sends_final \<and>
   list_all steady_clock (ticks two_sends) \<and> 0 \<le> flush_time two_sends \<and>
   sent_ok (p_metrics two_sends_final) = 1 \<and>
   sent_error (p_metrics two_sends_final) = 1 \<and>
   sent_ok (p_metrics two_sends_final) + sent_error (p_metrics two_sends_final)
     + int (length (in_flight two_sends_final)) = produced two_sends_final \<and>
   0 \<le> ack_latency_total_ms (p_metrics two_sends_final) \<and>
   acks (ideal_tick (sample_draws ''e1'')) = [] \<and>
   p_metrics (send_iteration create_order (rate_args 5 2) (ideal_tick (sample_draws ''e1''))
               (producer_init 100))
     = p_metrics (producer_init 100) \<and>
   (100 :: real) \<le> 101 \<and>
   ack_latency_total_ms (p_metrics (producer_init 100))
     \<le> ack_latency_total_ms (delivery_report None 100 101 (p_metrics (producer_init 100)))"
proof -
  note w = delivery_callback_counters
    [of 100 101 "p_metrics (producer_init 100)" "''timed out''" "ideal_tick (sample_draws ''e1'')"
        create_order "rate_args 5 2" "producer_init 100" 0 "[]" two_sends two_sends_final]
  have run: "producer_main (rate_args 5 2) two_sends = Finished two_sends_final"
    by (rule two_sends_run)
  have steady: "list_all steady_clock (ticks two_sends)" and fl: "0 \<le> flush_time two_sends"
    by (simp_all add: two_sends_def steady_clock_def)
  have none: "acks (ideal_tick (sample_draws ''e1'')) = []"
    by (simp add: ideal_tick_def)
  have le: "(100 :: real) \<le> 101"
    by simp
  have v: "sent_ok (p_metrics two_sends_final) = 1" "sent_error (p_metrics two_sends_final) = 1"
    by (simp_all add: two_sends_final_def)
  from w run steady fl none le v show ?thesis
    unfolding producer_main_def by (intro conjI) blast+
qed









text \<open>Pacing over a whole run: on an ideal clock, and on any clock that does not run backwards.\<close>

lemma send_iteration_start [simp]: "start (send_iteration f a t s) = start s"
  by (cases "accepted t") (simp_all add: send_iteration_accepted send_iteration_rejected)













lemma rate_args_fields [simp]:
  "events_per_second (rate_args r n) = r" "max_events (rate_args r n) = n"
  "duration_seconds (rate_args r n) = 0"
  by (simp_all add: rate_args_def)















end
